theory Spec2Isabelle
  imports Complex_Main "HOL-Library.Multiset"
begin

section \<open>The observation boundary map: data\<close>

text \<open>
  The program (\<^verbatim>\<open>app_boundary.py\<close>) is one script. It reads a table of time windows
  from a CSV file, checks the schema, parses the two timestamp columns, drops the rows
  whose timestamps did not parse, sorts by \<^verbatim>\<open>window_start\<close>, derives the column
  \<^verbatim>\<open>_observed\<close> from a flag column chosen in the sidebar, counts, and computes for
  every row the offsets \<^verbatim>\<open>x0\<close>, \<^verbatim>\<open>x1\<close> (seconds since the earliest start) and the
  bar width \<^verbatim>\<open>w\<close>. The model below is that pipeline, lines 25 to 64, as a function
  from the data frame and the chosen flag column to either the way the script stops or
  the summary and the computed rows. Drawing the bars and the tables is not modelled.
\<close>

subsection \<open>Cells, rows, data frames\<close>

text \<open>
  A cell of the frame as \<^verbatim>\<open>read_csv\<close> delivers it: a missing value, a boolean, an
  integer, a floating-point number (only its being zero or not is ever used), or a string.
\<close>

datatype cell = CNaN | CBool bool | CInt int | CFloat real | CStr string

text \<open>
  A data frame: the column names and the rows in file order. A row gives the cell under
  every column name; \<^verbatim>\<open>read_csv\<close> numbers the rows from 0, and that number (the
  index label) stays with the row through \<^verbatim>\<open>dropna\<close> and \<^verbatim>\<open>sort_values\<close>.
\<close>

record dataframe =
  columns :: "string list"
  records :: "(string \<Rightarrow> cell) list"

text \<open>
  A parsed timestamp is a count of nanoseconds since 1970-01-01T00:00:00Z, held by pandas
  in a signed 64-bit integer.
\<close>

type_synonym timestamp = int

text \<open>A row after line 41: both timestamps parsed (neither is \<^verbatim>\<open>NaT\<close>).\<close>

record window =
  index :: nat
  cells :: "string \<Rightarrow> cell"
  window_start :: timestamp
  window_end :: timestamp

text \<open>A row after line 64, with the four derived columns.\<close>

record segment = window +
  observed :: bool
  x0 :: real
  x1 :: real
  w :: real

text \<open>The summary written to the sidebar (lines 51 to 58).\<close>

record summary =
  total_n :: int
  observed_n :: int
  outside_n :: int

text \<open>What the script has computed when it reaches the plot.\<close>

record normalized = summary +
  t0 :: "timestamp option"
  rows :: "segment list"

text \<open>
  The ways the script stops short of the plot. Two are halts (\<^verbatim>\<open>st.error\<close> followed by
  \<^verbatim>\<open>st.stop()\<close>): required columns are missing (line 28), or the chosen flag column is
  (line 32). The third is the \<^verbatim>\<open>OverflowError\<close> that pandas raises at line 62 or 63 when
  a difference of two timestamps does not fit 64 bits; the summary has been written by
  then.
\<close>

datatype error = MissingColumns "string set" | MissingFlag string | OverflowError summary

subsection \<open>The library calls\<close>

definition required_cols :: "string set" where
  "required_cols = {''window_start'', ''window_end''}"

definition candidate_flags :: "string list" where
  "candidate_flags = [''is_observed_strict'', ''is_observed'', ''is_outside_observation'']"

text \<open>
  \<^verbatim>\<open>astype(bool)\<close>: the truth value of a cell. A missing value is a floating-point NaN,
  which is not zero, hence true; a string is true unless empty.
\<close>

fun astype_bool :: "cell \<Rightarrow> bool" where
  "astype_bool CNaN = True"
| "astype_bool (CBool b) = b"
| "astype_bool (CInt i) = (i \<noteq> 0)"
| "astype_bool (CFloat x) = (x \<noteq> 0)"
| "astype_bool (CStr s) = (s \<noteq> [])"

text \<open>
  \<^verbatim>\<open>pd.to_datetime(column, errors="coerce", utc=True)\<close> is a parameter of the model: a
  function from a column of cells to a column of parsed timestamps, \<open>None\<close> standing for
  \<^verbatim>\<open>NaT\<close>. It works on the whole column (pandas may settle on one format for all of its
  cells). All that is assumed of it is that it returns one result per cell.
\<close>

definition to_datetime_ok :: "(cell list \<Rightarrow> timestamp option list) \<Rightarrow> bool" where
  "to_datetime_ok to_datetime \<longleftrightarrow> (\<forall>cs. length (to_datetime cs) = length cs)"

text \<open>
  \<^verbatim>\<open>df.sort_values("window_start")\<close> is a parameter as well. The call names no sorting
  algorithm, so pandas uses its default; what the model assumes is that the result holds
  the same rows and is ascending in \<^verbatim>\<open>window_start\<close>. The order of rows with equal
  \<^verbatim>\<open>window_start\<close> is left to the algorithm.
\<close>

definition sort_values_ok :: "(window list \<Rightarrow> window list) \<Rightarrow> bool" where
  "sort_values_ok sort_values \<longleftrightarrow>
     (\<forall>rs. mset (sort_values rs) = mset rs \<and> sorted (map window_start (sort_values rs)))"

text \<open>Lines 38 and 39: both columns are parsed; each row keeps its index label.\<close>

definition parse_times ::
  "(cell list \<Rightarrow> timestamp option list) \<Rightarrow> (string \<Rightarrow> cell) list \<Rightarrow>
     (nat \<times> (string \<Rightarrow> cell) \<times> timestamp option \<times> timestamp option) list" where
  "parse_times to_datetime rs =
     zip [0..<length rs]
       (zip rs
         (zip (to_datetime (map (\<lambda>r. r ''window_start'') rs))
              (to_datetime (map (\<lambda>r. r ''window_end'') rs))))"

text \<open>Line 41: a row stays when neither timestamp is \<^verbatim>\<open>NaT\<close>.\<close>

fun notna :: "nat \<times> (string \<Rightarrow> cell) \<times> timestamp option \<times> timestamp option \<Rightarrow> window option" where
  "notna (i, r, Some a, Some b) =
     Some \<lparr>index = i, cells = r, window_start = a, window_end = b\<rparr>"
| "notna (i, r, _, _) = None"

definition dropna ::
  "(nat \<times> (string \<Rightarrow> cell) \<times> timestamp option \<times> timestamp option) list \<Rightarrow> window list" where
  "dropna ps = List.map_filter notna ps"

text \<open>Lines 45 to 48: the flag is inverted for the column \<^verbatim>\<open>is_outside_observation\<close>.\<close>

definition observed_of :: "string \<Rightarrow> window \<Rightarrow> bool" where
  "observed_of flag_col r =
     (if flag_col = ''is_outside_observation'' then \<not> astype_bool (cells r flag_col)
      else astype_bool (cells r flag_col))"

text \<open>Line 61: the minimum of a column; of an empty column it is \<^verbatim>\<open>NaT\<close>.\<close>

definition series_min :: "timestamp list \<Rightarrow> timestamp option" where
  "series_min ts = (case ts of [] \<Rightarrow> None | t # ts' \<Rightarrow> Some (fold min ts' t))"

text \<open>
  Lines 62 and 63 subtract \<^verbatim>\<open>t0\<close> from a column of timestamps. pandas subtracts the
  64-bit counts and raises \<^verbatim>\<open>OverflowError\<close> when a difference lies outside
  \<open>- int64_max \<dots> int64_max\<close> (the least 64-bit value stands for \<^verbatim>\<open>NaT\<close>); \<open>None\<close> is
  that error.
\<close>

definition int64_max :: int where
  "int64_max = 9223372036854775807"

definition fits_int64 :: "int \<Rightarrow> bool" where
  "fits_int64 d \<longleftrightarrow> - int64_max \<le> d \<and> d \<le> int64_max"

definition sub_overflowsafe :: "timestamp \<Rightarrow> timestamp \<Rightarrow> int option" where
  "sub_overflowsafe a t = (if fits_int64 (a - t) then Some (a - t) else None)"

definition timedeltas :: "timestamp list \<Rightarrow> timestamp \<Rightarrow> int list option" where
  "timedeltas col t = those (map (\<lambda>a. sub_overflowsafe a t) col)"

text \<open>
  The columns \<^verbatim>\<open>x0\<close>, \<^verbatim>\<open>x1\<close> and \<^verbatim>\<open>w\<close> are float64. A float64 value is a real
  number, and every operation gives the float64 nearest to the exact result, a tie going
  to the one with the even significand: \<open>f64\<close> is that rounding, to 53 significant bits
  with exponents from \<open>- 1022\<close> up (below that the spacing stays that of exponent
  \<open>- 1022\<close>). Results too large for float64 do not arise here: the differences fit 64
  bits.
\<close>

definition round_half_even :: "real \<Rightarrow> int" where
  "round_half_even x =
     (let n = \<lfloor>x\<rfloor>; d = x - of_int n
      in if d < 1 / 2 then n else if 1 / 2 < d then n + 1 else if even n then n else n + 1)"

definition f64_exponent :: "real \<Rightarrow> int" where
  "f64_exponent x = max (- 1022) \<lfloor>log 2 \<bar>x\<bar>\<rfloor>"

definition f64 :: "real \<Rightarrow> real" where
  "f64 x =
     (if x = 0 then 0
      else let q = 2 powr of_int (f64_exponent x - 52)
           in of_int (round_half_even (x / q)) * q)"

text \<open>
  \<^verbatim>\<open>.dt.total_seconds()\<close>: the 64-bit count of nanoseconds is converted to float64 and
  divided by \<open>10\<^sup>9\<close>.
\<close>

definition total_seconds :: "int \<Rightarrow> real" where
  "total_seconds ns = f64 (f64 (of_int ns) / 1000000000)"

text \<open>\<^verbatim>\<open>.clip(lower=lo)\<close>: a value below \<open>lo\<close> becomes \<open>lo\<close>.\<close>

definition clip_lower :: "real \<Rightarrow> real \<Rightarrow> real" where
  "clip_lower lo v = (if v < lo then lo else v)"

text \<open>
  Lines 45 to 48 and 62 to 64 for one row, given its two differences from \<^verbatim>\<open>t0\<close>; the
  subtraction of line 64 is a float64 operation.
\<close>

definition segment_of :: "string \<Rightarrow> window \<Rightarrow> int \<Rightarrow> int \<Rightarrow> segment" where
  "segment_of flag_col r d0 d1 =
     (let a = total_seconds d0;
          b = total_seconds d1
      in \<lparr>index = index r, cells = cells r,
          window_start = window_start r, window_end = window_end r,
          observed = observed_of flag_col r,
          x0 = a, x1 = b, w = clip_lower 0 (f64 (b - a))\<rparr>)"

subsection \<open>The pipeline\<close>

text \<open>Lines 37 to 42: parse, drop, sort.\<close>

definition prepare ::
  "(cell list \<Rightarrow> timestamp option list) \<Rightarrow> (window list \<Rightarrow> window list) \<Rightarrow>
     (string \<Rightarrow> cell) list \<Rightarrow> window list" where
  "prepare to_datetime sort_values rs = sort_values (dropna (parse_times to_datetime rs))"

text \<open>
  Lines 44 to 64 on the sorted rows: the summary, the epoch \<^verbatim>\<open>t0\<close>, the two columns of
  differences, and the derived columns. When no row survives, \<^verbatim>\<open>t0\<close> is \<^verbatim>\<open>NaT\<close> and
  the frame, with its new columns, is empty.
\<close>

definition timeline :: "string \<Rightarrow> window list \<Rightarrow> error + normalized" where
  "timeline flag_col ws =
     (let n = int (length ws);
          k = int (length (filter (observed_of flag_col) ws))
      in case series_min (map window_start ws) of
           None \<Rightarrow>
             Inr \<lparr>total_n = n, observed_n = k, outside_n = n - k, t0 = None, rows = []\<rparr>
         | Some t \<Rightarrow>
            (case timedeltas (map window_start ws) t of
               None \<Rightarrow> Inl (OverflowError \<lparr>total_n = n, observed_n = k, outside_n = n - k\<rparr>)
             | Some d0 \<Rightarrow>
                (case timedeltas (map window_end ws) t of
                   None \<Rightarrow>
                     Inl (OverflowError \<lparr>total_n = n, observed_n = k, outside_n = n - k\<rparr>)
                 | Some d1 \<Rightarrow>
                     Inr \<lparr>total_n = n, observed_n = k, outside_n = n - k, t0 = Some t,
                          rows = map (\<lambda>(r, a, b). segment_of flag_col r a b)
                                   (zip ws (zip d0 d1))\<rparr>)))"

text \<open>Lines 25 to 64: the two schema checks, then the pipeline.\<close>

definition normalize_df ::
  "(cell list \<Rightarrow> timestamp option list) \<Rightarrow> (window list \<Rightarrow> window list) \<Rightarrow>
     dataframe \<Rightarrow> string \<Rightarrow> error + normalized" where
  "normalize_df to_datetime sort_values df flag_col =
     (let missing = required_cols - set (columns df) in
      if missing \<noteq> {} then Inl (MissingColumns missing)
      else if flag_col \<notin> set (columns df) then Inl (MissingFlag flag_col)
      else timeline flag_col (prepare to_datetime sort_values (records df)))"

text \<open>
  Whether the differences of lines 62 and 63 all fit, for a list of parsed rows: each
  \<^verbatim>\<open>window_start\<close> and \<^verbatim>\<open>window_end\<close> less the least \<^verbatim>\<open>window_start\<close>.
\<close>

definition timedeltas_fit :: "window list \<Rightarrow> bool" where
  "timedeltas_fit ws =
     (case series_min (map window_start ws) of
        None \<Rightarrow> True
      | Some t \<Rightarrow>
          list_all (\<lambda>r. fits_int64 (window_start r - t) \<and> fits_int64 (window_end r - t)) ws)"

subsection \<open>Rows that parse\<close>

text \<open>
  Row \<open>i\<close> of the frame after lines 38 and 39, and what line 41 makes of it: the parsed
  row, or nothing when one of its two timestamps is \<^verbatim>\<open>NaT\<close>.
\<close>

definition parsed_at ::
  "(cell list \<Rightarrow> timestamp option list) \<Rightarrow> (string \<Rightarrow> cell) list \<Rightarrow> nat \<Rightarrow> window option" where
  "parsed_at to_datetime rs i =
     notna (i, rs ! i, to_datetime (map (\<lambda>r. r ''window_start'') rs) ! i,
                       to_datetime (map (\<lambda>r. r ''window_end'') rs) ! i)"

definition unparseable ::
  "(cell list \<Rightarrow> timestamp option list) \<Rightarrow> (string \<Rightarrow> cell) list \<Rightarrow> nat \<Rightarrow> bool" where
  "unparseable to_datetime rs i \<longleftrightarrow>
     to_datetime (map (\<lambda>r. r ''window_start'') rs) ! i = None \<or>
     to_datetime (map (\<lambda>r. r ''window_end'') rs) ! i = None"

subsection \<open>An instance of the two library calls\<close>

text \<open>
  For concrete runs the parameters are instantiated. The parser below reads the one format
  \<^verbatim>\<open>YYYY-MM-DDTHH:MM:SSZ\<close> from a string cell and gives \<^verbatim>\<open>NaT\<close> for every other
  cell, and for an instant whose count of nanoseconds does not fit 64 bits; the sort is
  insertion sort on \<^verbatim>\<open>window_start\<close>.
\<close>

definition number :: "string \<Rightarrow> int option" where
  "number s =
     (if s \<noteq> [] \<and> list_all (\<lambda>c. 48 \<le> (of_char c :: nat) \<and> (of_char c :: nat) \<le> 57) s
      then Some (foldl (\<lambda>a c. 10 * a + (int (of_char c) - 48)) 0 s) else None)"

definition days_from_civil :: "int \<Rightarrow> int \<Rightarrow> int \<Rightarrow> int" where
  "days_from_civil y m d =
     (let y' = (if m \<le> 2 then y - 1 else y);
          era = y' div 400;
          yoe = y' - era * 400;
          doy = (153 * (if 2 < m then m - 3 else m + 9) + 2) div 5 + d - 1;
          doe = yoe * 365 + yoe div 4 - yoe div 100 + doy
      in era * 146097 + doe - 719468)"

definition days_in_month :: "int \<Rightarrow> int \<Rightarrow> int" where
  "days_in_month y m =
     (if m = 2 then (if y mod 4 = 0 \<and> (y mod 100 \<noteq> 0 \<or> y mod 400 = 0) then 29 else 28)
      else if m \<in> {4, 6, 9, 11} then 30 else 31)"

definition iso8601_utc :: "string \<Rightarrow> timestamp option" where
  "iso8601_utc s =
     (if length s = 20 \<and> s ! 4 = CHR ''-'' \<and> s ! 7 = CHR ''-'' \<and> s ! 10 = CHR ''T''
         \<and> s ! 13 = CHR '':'' \<and> s ! 16 = CHR '':'' \<and> s ! 19 = CHR ''Z''
      then
        (case (number (take 4 s), number (take 2 (drop 5 s)), number (take 2 (drop 8 s)),
               number (take 2 (drop 11 s)), number (take 2 (drop 14 s)),
               number (take 2 (drop 17 s))) of
           (Some y, Some m, Some d, Some h, Some mi, Some sec) \<Rightarrow>
             (let ns = (((days_from_civil y m d * 24 + h) * 60 + mi) * 60 + sec) * 1000000000
              in if 1 \<le> m \<and> m \<le> 12 \<and> 1 \<le> d \<and> d \<le> days_in_month y m
                    \<and> h < 24 \<and> mi < 60 \<and> sec < 60 \<and> fits_int64 ns
                 then Some ns else None)
         | _ \<Rightarrow> None)
      else None)"

definition to_datetime_iso :: "cell list \<Rightarrow> timestamp option list" where
  "to_datetime_iso cs = map (\<lambda>c. case c of CStr s \<Rightarrow> iso8601_utc s | _ \<Rightarrow> None) cs"

definition sort_values_insort :: "window list \<Rightarrow> window list" where
  "sort_values_insort rs = sort_key window_start rs"

text \<open>The table of the scenario: two rows, the second ending before it starts.\<close>

definition scenario :: dataframe where
  "scenario =
     \<lparr>columns = [''window_start'', ''window_end'', ''is_observed_strict''],
      records =
        [(\<lambda>_. CNaN)(''window_start'' := CStr ''2026-01-20T10:00:00Z'',
                      ''window_end'' := CStr ''2026-01-20T10:00:05Z'',
                      ''is_observed_strict'' := CBool True),
         (\<lambda>_. CNaN)(''window_start'' := CStr ''2026-01-20T10:00:10Z'',
                      ''window_end'' := CStr ''2026-01-20T10:00:08Z'',
                      ''is_observed_strict'' := CBool False)]\<rparr>"

text \<open>The result of the scenario.\<close>

definition scenario_out :: normalized where
  "scenario_out =
     \<lparr>total_n = 2, observed_n = 1, outside_n = 1, t0 = Some 1768903200000000000,
      rows =
        [\<lparr>index = 0, cells = records scenario ! 0,
          window_start = 1768903200000000000, window_end = 1768903205000000000,
          observed = True, x0 = 0, x1 = 5, w = 5\<rparr>,
         \<lparr>index = 1, cells = records scenario ! 1,
          window_start = 1768903210000000000, window_end = 1768903208000000000,
          observed = False, x0 = 10, x1 = 8, w = 0\<rparr>]\<rparr>"

text \<open>
  A second table, out of file order: its first row starts last, its second row has no
  \<^verbatim>\<open>window_start\<close>, and its third row has no flag.
\<close>

definition messy :: dataframe where
  "messy =
     \<lparr>columns = [''window_start'', ''window_end'', ''is_outside_observation''],
      records =
        [(\<lambda>_. CNaN)(''window_start'' := CStr ''2026-01-20T10:00:10Z'',
                      ''window_end'' := CStr ''2026-01-20T10:00:12Z'',
                      ''is_outside_observation'' := CBool True),
         (\<lambda>_. CNaN)(''window_end'' := CStr ''2026-01-20T10:00:05Z'',
                      ''is_outside_observation'' := CBool False),
         (\<lambda>_. CNaN)(''window_start'' := CStr ''2026-01-20T10:00:00Z'',
                      ''window_end'' := CStr ''2026-01-20T10:00:05Z'')]\<rparr>"

definition messy_out :: normalized where
  "messy_out =
     \<lparr>total_n = 2, observed_n = 0, outside_n = 2, t0 = Some 1768903200000000000,
      rows =
        [\<lparr>index = 2, cells = records messy ! 2,
          window_start = 1768903200000000000, window_end = 1768903205000000000,
          observed = False, x0 = 0, x1 = 5, w = 5\<rparr>,
         \<lparr>index = 0, cells = records messy ! 0,
          window_start = 1768903210000000000, window_end = 1768903212000000000,
          observed = False, x0 = 10, x1 = 12, w = 2\<rparr>]\<rparr>"

text \<open>
  The table of the scenario with a further flag column \<^verbatim>\<open>is_observed\<close>, empty in both
  rows.
\<close>

definition blank_flag :: dataframe where
  "blank_flag = scenario\<lparr>columns := columns scenario @ [''is_observed'']\<rparr>"

text \<open>A table of two rows 550 years apart.\<close>

definition far_apart :: dataframe where
  "far_apart =
     \<lparr>columns = [''window_start'', ''window_end'', ''is_observed''],
      records =
        [(\<lambda>_. CNaN)(''window_start'' := CStr ''1700-01-01T00:00:00Z'',
                      ''window_end'' := CStr ''1700-01-01T00:00:01Z'',
                      ''is_observed'' := CBool True),
         (\<lambda>_. CNaN)(''window_start'' := CStr ''2250-01-01T00:00:00Z'',
                      ''window_end'' := CStr ''2250-01-01T00:00:01Z'',
                      ''is_observed'' := CBool False)]\<rparr>"

text \<open>
  A second function that meets what is assumed of \<^verbatim>\<open>sort_values\<close>, and two rows with
  the same \<^verbatim>\<open>window_start\<close>.
\<close>

definition sort_values_ties_last_first :: "window list \<Rightarrow> window list" where
  "sort_values_ties_last_first rs = rev (sort_key (\<lambda>r. - window_start r) rs)"

definition tied :: "window list" where
  "tied = [\<lparr>index = 0, cells = (\<lambda>_. CNaN), window_start = 7, window_end = 9\<rparr>,
           \<lparr>index = 1, cells = (\<lambda>_. CNaN), window_start = 7, window_end = 8\<rparr>]"

section \<open>Properties of the stages\<close>

subsection \<open>The minimum of a column\<close>

lemma series_min_None: "series_min ts = None \<longleftrightarrow> ts = []"
  by (simp add: series_min_def split: list.splits)

lemma series_min_Min: "ts \<noteq> [] \<Longrightarrow> series_min ts = Some (Min (set ts))"
  using Min.set_eq_fold [of "hd ts" "tl ts"] by (cases ts) (simp_all add: series_min_def)

lemma series_min_in: "series_min ts = Some t \<Longrightarrow> t \<in> set ts"
proof -
  assume a: "series_min ts = Some t"
  then have ne: "ts \<noteq> []" by (auto simp: series_min_def)
  with a have "t = Min (set ts)" by (simp add: series_min_Min)
  with ne show ?thesis by (simp add: Min_in del: Min.set_eq_fold)
qed

lemma series_min_le: "series_min ts = Some t \<Longrightarrow> x \<in> set ts \<Longrightarrow> t \<le> x"
proof -
  assume a: "series_min ts = Some t" and x: "x \<in> set ts"
  then have ne: "ts \<noteq> []" by auto
  with a have "t = Min (set ts)" by (simp add: series_min_Min)
  with x show ?thesis by simp
qed

lemma series_min_sorted: "sorted ts \<Longrightarrow> series_min ts = Some t \<Longrightarrow> t = hd ts"
proof -
  assume s: "sorted ts" and a: "series_min ts = Some t"
  then obtain u us where ts: "ts = u # us" by (cases ts) (auto simp: series_min_def)
  from a have "t \<in> set ts" by (rule series_min_in)
  with s ts have "u \<le> t" by auto
  moreover from a ts have "t \<le> u" by (auto intro: series_min_le)
  ultimately show ?thesis using ts by simp
qed

lemma series_min_cong: "set ts = set us \<Longrightarrow> series_min ts = series_min us"
proof (cases "ts = []")
  case True
  moreover assume "set ts = set us"
  ultimately have "us = []" by auto
  with True show ?thesis by simp
next
  case False
  moreover assume s: "set ts = set us"
  ultimately have "us \<noteq> []" by auto
  with False s show ?thesis by (simp add: series_min_Min del: Min.set_eq_fold)
qed

subsection \<open>Parsing and dropping\<close>

lemma parse_times_map:
  assumes "to_datetime_ok td"
  shows "parse_times td rs =
    map (\<lambda>i. (i, rs ! i, td (map (\<lambda>r. r ''window_start'') rs) ! i,
                        td (map (\<lambda>r. r ''window_end'') rs) ! i)) [0..<length rs]"
  using assms by (intro nth_equalityI) (simp_all add: parse_times_def to_datetime_ok_def)

lemma dropna_parse_times:
  "to_datetime_ok td \<Longrightarrow>
   dropna (parse_times td rs) = List.map_filter (parsed_at td rs) [0..<length rs]"
  by (simp add: dropna_def parse_times_map List.map_filter_def parsed_at_def filter_map comp_def)

lemma notna_Some_iff:
  "notna p = Some r \<longleftrightarrow>
     (fst (snd (snd p)) = Some (window_start r) \<and> snd (snd (snd p)) = Some (window_end r)
      \<and> index r = fst p \<and> cells r = fst (snd p))"
  by (cases p rule: notna.cases) auto

lemma parsed_at_Some_iff:
  "parsed_at td rs i = Some r \<longleftrightarrow>
     td (map (\<lambda>r. r ''window_start'') rs) ! i = Some (window_start r) \<and>
     td (map (\<lambda>r. r ''window_end'') rs) ! i = Some (window_end r) \<and>
     index r = i \<and> cells r = rs ! i"
  by (auto simp: parsed_at_def notna_Some_iff)

lemma parsed_at_None_iff: "parsed_at td rs i = None \<longleftrightarrow> unparseable td rs i"
  unfolding parsed_at_def unparseable_def
  by (cases "(i, rs ! i, td (map (\<lambda>r. r ''window_start'') rs) ! i,
      td (map (\<lambda>r. r ''window_end'') rs) ! i)" rule: notna.cases) auto

lemma map_index_map_filter:
  "map index (List.map_filter (parsed_at td rs) js) = filter (\<lambda>i. \<not> unparseable td rs i) js"
proof (induction js)
  case Nil
  show ?case by (simp add: List.map_filter_simps)
next
  case (Cons j js)
  show ?case
  proof (cases "parsed_at td rs j")
    case None
    then have "unparseable td rs j" by (simp add: parsed_at_None_iff)
    with None Cons show ?thesis by (simp add: List.map_filter_simps)
  next
    case (Some r)
    then have "parsed_at td rs j \<noteq> None" by simp
    then have "\<not> unparseable td rs j" by (simp add: parsed_at_None_iff)
    moreover from Some have "index r = j" by (simp add: parsed_at_Some_iff)
    ultimately show ?thesis using Some Cons by (simp add: List.map_filter_simps)
  qed
qed

lemma set_map_filter_iff:
  "y \<in> set (List.map_filter f xs) \<longleftrightarrow> (\<exists>x\<in>set xs. f x = Some y)"
  by (induction xs) (auto simp: List.map_filter_simps split: option.splits)

subsection \<open>Sorting\<close>

lemma sort_values_mset: "sort_values_ok sv \<Longrightarrow> mset (sv rs) = mset rs"
  by (simp add: sort_values_ok_def)

lemma sort_values_set: "sort_values_ok sv \<Longrightarrow> set (sv rs) = set rs"
  by (metis sort_values_mset set_mset_mset)

lemma sort_values_sorted: "sort_values_ok sv \<Longrightarrow> sorted (map window_start (sv rs))"
  by (simp add: sort_values_ok_def)

lemma prepare_sorted: "sort_values_ok sv \<Longrightarrow> sorted (map window_start (prepare td sv rs))"
  by (simp add: prepare_def sort_values_sorted)

lemma prepare_set:
  "to_datetime_ok td \<Longrightarrow> sort_values_ok sv \<Longrightarrow>
   r \<in> set (prepare td sv rs) \<longleftrightarrow> (\<exists>i<length rs. parsed_at td rs i = Some r)"
  by (auto simp: prepare_def sort_values_set dropna_parse_times set_map_filter_iff)

lemma prepare_index:
  assumes "to_datetime_ok td" "sort_values_ok sv"
  shows "mset (map index (prepare td sv rs)) =
         mset (filter (\<lambda>i. \<not> unparseable td rs i) [0..<length rs])"
proof -
  have "mset (map index (prepare td sv rs)) = image_mset index (mset (prepare td sv rs))"
    by simp
  also have "\<dots> = image_mset index (mset (dropna (parse_times td rs)))"
    using assms(2) by (simp add: prepare_def sort_values_mset)
  also have "\<dots> = mset (map index (dropna (parse_times td rs)))"
    by simp
  also have "\<dots> = mset (filter (\<lambda>i. \<not> unparseable td rs i) [0..<length rs])"
    using assms(1) by (simp add: dropna_parse_times map_index_map_filter)
  finally show ?thesis .
qed

lemma prepare_length:
  assumes "to_datetime_ok td" "sort_values_ok sv"
  shows "int (length (prepare td sv rs)) =
         int (length rs) - int (length (filter (unparseable td rs) [0..<length rs]))"
proof -
  have "length (map index (prepare td sv rs)) =
      length (filter (\<lambda>i. \<not> unparseable td rs i) [0..<length rs])"
    by (rule mset_eq_length [OF prepare_index [OF assms]])
  then have "length (prepare td sv rs) + length (filter (unparseable td rs) [0..<length rs])
      = length rs"
    using sum_length_filter_compl [of "unparseable td rs" "[0..<length rs]"] by simp
  then show ?thesis by linarith
qed

subsection \<open>Rounding to float64\<close>

lemma round_half_even_of_int: "round_half_even (of_int k) = k"
  by (simp add: round_half_even_def)

lemma round_half_even_mono:
  assumes "x \<le> y"
  shows "round_half_even x \<le> round_half_even y"
proof (cases "\<lfloor>x\<rfloor> = \<lfloor>y\<rfloor>")
  case True
  with assms show ?thesis
    unfolding round_half_even_def Let_def by auto
next
  case False
  with assms have "\<lfloor>x\<rfloor> + 1 \<le> \<lfloor>y\<rfloor>" using floor_mono [OF assms] by linarith
  moreover have "round_half_even x \<le> \<lfloor>x\<rfloor> + 1"
    unfolding round_half_even_def Let_def by auto
  moreover have "\<lfloor>y\<rfloor> \<le> round_half_even y"
    unfolding round_half_even_def Let_def by auto
  ultimately show ?thesis by linarith
qed

lemma round_half_even_minus: "round_half_even (- x) = - round_half_even x"
proof (cases "x \<in> \<int>")
  case True
  then obtain k where "x = of_int k" by (auto elim: Ints_cases)
  then have "- x = of_int (- k)" by simp
  then show ?thesis using \<open>x = of_int k\<close> by (simp only: round_half_even_of_int)
next
  case False
  then have "of_int \<lfloor>x\<rfloor> \<noteq> x" by (metis Ints_of_int)
  then have lt: "of_int \<lfloor>x\<rfloor> < x" using of_int_floor_le [of x] by linarith
  have f: "\<lfloor>- x\<rfloor> = - \<lfloor>x\<rfloor> - 1"
  proof (rule floor_unique)
    show "of_int (- \<lfloor>x\<rfloor> - 1) \<le> - x" by simp linarith
    show "- x < of_int (- \<lfloor>x\<rfloor> - 1) + 1" using lt by simp
  qed
  show ?thesis
    unfolding round_half_even_def Let_def f using lt by (auto; (linarith | presburger)?)
qed


lemma f64_0: "f64 0 = 0"
  by (simp add: f64_def)

lemma f64_exponent_minus: "f64_exponent (- x) = f64_exponent x"
  by (simp add: f64_exponent_def)

lemma f64_minus: "f64 (- x) = - f64 x"
  by (simp add: f64_def f64_exponent_minus round_half_even_minus Let_def)

lemma f64_exponent_upper:
  assumes "0 < x"
  shows "x < 2 powr of_int (f64_exponent x + 1)"
proof -
  have "x < 2 powr of_int (\<lfloor>log 2 x\<rfloor> + 1)"
    using floor_log_eq_powr_iff [of x 2 "\<lfloor>log 2 x\<rfloor>"] assms by simp
  also have "\<dots> \<le> 2 powr of_int (f64_exponent x + 1)"
    using assms by (intro powr_mono) (simp_all add: f64_exponent_def)
  finally show ?thesis .
qed

lemma f64_exponent_lower:
  assumes "0 < x" and "- 1022 < f64_exponent x"
  shows "2 powr of_int (f64_exponent x) \<le> x"
proof -
  from assms have "f64_exponent x = \<lfloor>log 2 x\<rfloor>" by (simp add: f64_exponent_def max_def split: if_splits)
  then show ?thesis
    using floor_log_eq_powr_iff [of x 2 "\<lfloor>log 2 x\<rfloor>"] assms by simp
qed

lemma f64_exponent_mono:
  assumes "0 < x" and "x \<le> y"
  shows "f64_exponent x \<le> f64_exponent y"
proof -
  from assms have "log 2 x \<le> log 2 y" by simp
  then have "\<lfloor>log 2 x\<rfloor> \<le> \<lfloor>log 2 y\<rfloor>" by (rule floor_mono)
  with assms show ?thesis by (simp add: f64_exponent_def)
qed

lemma f64_pos_upper:
  assumes "0 < x"
  shows "f64 x \<le> 2 powr of_int (f64_exponent x + 1)"
proof -
  let ?e = "f64_exponent x"
  let ?q = "(2::real) powr of_int (?e - 52)"
  have q: "0 < ?q" by simp
  have split: "(2::real) powr of_int (?e + 1) = of_int (2 ^ 53) * ?q"
  proof -
    have "(2::real) powr of_int (?e + 1) = 2 powr (53 + of_int (?e - 52))" by (simp add: algebra_simps)
    also have "\<dots> = 2 powr 53 * ?q" by (rule powr_add)
    also have "(2::real) powr 53 = of_int (2 ^ 53)"
      using powr_realpow [of 2 53] by simp
    finally show ?thesis .
  qed
  from f64_exponent_upper [OF assms] have "x / ?q \<le> of_int (2 ^ 53)"
    unfolding split using q by (simp add: field_simps)
  then have "round_half_even (x / ?q) \<le> 2 ^ 53"
    using round_half_even_mono [of "x / ?q" "of_int (2 ^ 53)"]
    by (simp only: round_half_even_of_int)
  then have "of_int (round_half_even (x / ?q)) * ?q \<le> of_int (2 ^ 53) * ?q"
    using q by (intro mult_right_mono) simp_all
  with assms show ?thesis unfolding split by (simp add: f64_def Let_def)
qed

lemma f64_pos_lower:
  assumes "0 < x" and "- 1022 < f64_exponent x"
  shows "2 powr of_int (f64_exponent x) \<le> f64 x"
proof -
  let ?e = "f64_exponent x"
  let ?q = "(2::real) powr of_int (?e - 52)"
  have q: "0 < ?q" by simp
  have split: "(2::real) powr of_int ?e = of_int (2 ^ 52) * ?q"
  proof -
    have "(2::real) powr of_int ?e = 2 powr (52 + of_int (?e - 52))" by (simp add: algebra_simps)
    also have "\<dots> = 2 powr 52 * ?q" by (rule powr_add)
    also have "(2::real) powr 52 = of_int (2 ^ 52)"
      using powr_realpow [of 2 52] by simp
    finally show ?thesis .
  qed
  from f64_exponent_lower [OF assms] have "of_int (2 ^ 52) \<le> x / ?q"
    unfolding split using q by (simp add: field_simps)
  then have "2 ^ 52 \<le> round_half_even (x / ?q)"
    using round_half_even_mono [of "of_int (2 ^ 52)" "x / ?q"]
    by (simp only: round_half_even_of_int)
  then have "of_int (2 ^ 52) * ?q \<le> of_int (round_half_even (x / ?q)) * ?q"
    using q by (intro mult_right_mono) simp_all
  with assms show ?thesis unfolding split by (simp add: f64_def Let_def)
qed

lemma f64_nonneg:
  assumes "0 \<le> x"
  shows "0 \<le> f64 x"
proof (cases "x = 0")
  case True
  then show ?thesis by (simp add: f64_0)
next
  case False
  let ?q = "(2::real) powr of_int (f64_exponent x - 52)"
  have r0: "round_half_even 0 = 0" using round_half_even_of_int [of 0] by simp
  from assms have "0 \<le> x / ?q" by simp
  then have "round_half_even 0 \<le> round_half_even (x / ?q)" by (rule round_half_even_mono)
  then have "0 \<le> round_half_even (x / ?q)" by (simp only: r0)
  with False show ?thesis by (simp add: f64_def Let_def)
qed

lemma f64_mono_pos:
  assumes "0 < x" and "x \<le> y"
  shows "f64 x \<le> f64 y"
proof -
  from assms have y: "0 < y" by simp
  from assms have le: "f64_exponent x \<le> f64_exponent y" by (rule f64_exponent_mono)
  show ?thesis
  proof (cases "f64_exponent x = f64_exponent y")
    case True
    let ?q = "(2::real) powr of_int (f64_exponent y - 52)"
    have "x / ?q \<le> y / ?q" using assms by (simp add: divide_right_mono)
    then have "round_half_even (x / ?q) \<le> round_half_even (y / ?q)"
      by (rule round_half_even_mono)
    then have "of_int (round_half_even (x / ?q)) * ?q \<le> of_int (round_half_even (y / ?q)) * ?q"
      by (intro mult_right_mono) simp_all
    with assms y True show ?thesis by (simp add: f64_def Let_def)
  next
    case False
    with le have lt: "f64_exponent x + 1 \<le> f64_exponent y" by simp
    have "- 1022 \<le> f64_exponent x" by (simp add: f64_exponent_def)
    with lt have big: "- 1022 < f64_exponent y" by simp
    have "f64 x \<le> 2 powr of_int (f64_exponent x + 1)"
      using assms(1) by (rule f64_pos_upper)
    also have "\<dots> \<le> 2 powr of_int (f64_exponent y)"
      using lt by (intro powr_mono) simp_all
    also have "\<dots> \<le> f64 y" using y big by (rule f64_pos_lower)
    finally show ?thesis .
  qed
qed

lemma f64_mono:
  assumes "x \<le> y"
  shows "f64 x \<le> f64 y"
proof -
  consider "0 < x" | "x \<le> 0" "0 \<le> y" | "y < 0" by linarith
  then show ?thesis
  proof cases
    case 1
    from 1 assms show ?thesis by (rule f64_mono_pos)
  next
    case 2
    from 2(1) have "0 \<le> f64 (- x)" by (intro f64_nonneg) simp
    then have "f64 x \<le> 0" by (simp add: f64_minus)
    also from 2(2) have "0 \<le> f64 y" by (rule f64_nonneg)
    finally show ?thesis .
  next
    case 3
    with assms have "f64 (- y) \<le> f64 (- x)" by (intro f64_mono_pos) simp_all
    then show ?thesis by (simp add: f64_minus)
  qed
qed

lemma f64_of_int:
  assumes "\<bar>n\<bar> < 2 ^ 53"
  shows "f64 (of_int n) = of_int n"
proof (cases "n = 0")
  case True
  then show ?thesis by (simp add: f64_0)
next
  case False
  let ?x = "of_int n :: real"
  let ?e = "f64_exponent ?x"
  define j where "j = nat (52 - ?e)"
  have "\<bar>?x\<bar> < 2 powr 53"
    using assms powr_realpow [of 2 53] by (simp flip: of_int_abs add: of_int_less_iff [symmetric] del: of_int_less_iff)
  moreover have "0 < \<bar>?x\<bar>" using False by simp
  ultimately have "log 2 \<bar>?x\<bar> < 53"
    by (simp add: log_less_iff)
  then have "\<lfloor>log 2 \<bar>?x\<bar>\<rfloor> \<le> 52" by (simp add: floor_le_iff)
  then have e: "?e \<le> 52" by (simp add: f64_exponent_def)
  then have "(2::real) powr of_int (?e - 52) = 1 / 2 ^ j"
    using powr_real_of_int [of 2 "?e - 52"] by (auto simp: j_def inverse_eq_divide)
  then have q: "(2::real) powr (of_int ?e - 52) = 1 / 2 ^ j" by simp
  have "?x / (1 / 2 ^ j) = of_int (n * 2 ^ j)" by simp
  then have "round_half_even (?x / (1 / 2 ^ j)) = n * 2 ^ j"
    by (simp only: round_half_even_of_int)
  with False show ?thesis by (simp add: f64_def Let_def q)
qed


lemma f64_numeral: "numeral k < (2::int) ^ 53 \<Longrightarrow> f64 (numeral k) = numeral k"
  using f64_of_int [of "numeral k"] by simp

lemma f64_neg_numeral: "numeral k < (2::int) ^ 53 \<Longrightarrow> f64 (- numeral k) = - numeral k"
  using f64_of_int [of "- numeral k"] by simp

lemma f64_1: "f64 1 = 1"
  using f64_of_int [of 1] by simp

lemmas f64_exact = f64_0 f64_1 f64_numeral f64_neg_numeral

lemma total_seconds_mono: "a \<le> b \<Longrightarrow> total_seconds a \<le> total_seconds b"
  unfolding total_seconds_def by (intro f64_mono divide_right_mono) simp_all

lemma total_seconds_0: "total_seconds 0 = 0"
  by (simp add: total_seconds_def f64_0)

lemma total_seconds_nonneg: "0 \<le> d \<Longrightarrow> 0 \<le> total_seconds d"
  using total_seconds_mono [of 0 d] by (simp add: total_seconds_0)

lemma clip_lower_0_nonneg: "0 \<le> clip_lower 0 v"
  by (simp add: clip_lower_def)



subsection \<open>The differences of lines 62 and 63\<close>

lemma timedeltas_eq:
  "timedeltas (map f ws) t =
     (if list_all (\<lambda>r. fits_int64 (f r - t)) ws then Some (map (\<lambda>r. f r - t) ws) else None)"
  unfolding timedeltas_def
  by (induction ws) (simp_all add: sub_overflowsafe_def)

lemma map_zip_zip:
  "map (\<lambda>(r, a, b). h r a b) (zip ws (zip (map f ws) (map g ws))) = map (\<lambda>r. h r (f r) (g r)) ws"
  by (induction ws) simp_all

lemma timedeltas_fit_Nil: "timedeltas_fit []"
  by (simp add: timedeltas_fit_def series_min_def)

lemma timedeltas_fit_iff:
  "series_min (map window_start ws) = Some t \<Longrightarrow>
   timedeltas_fit ws \<longleftrightarrow>
     list_all (\<lambda>r. fits_int64 (window_start r - t)) ws \<and>
     list_all (\<lambda>r. fits_int64 (window_end r - t)) ws"
  by (auto simp: timedeltas_fit_def list_all_iff)

lemma timedeltas_fit_cong:
  assumes "set xs = set ys"
  shows "timedeltas_fit xs = timedeltas_fit ys"
proof -
  from assms have "set (map window_start xs) = set (map window_start ys)" by simp
  then have "series_min (map window_start xs) = series_min (map window_start ys)"
    by (rule series_min_cong)
  with assms show ?thesis by (simp add: timedeltas_fit_def list_all_iff split: option.splits)
qed

subsection \<open>The summary and the derived columns\<close>

lemma segment_of_simps:
  "index (segment_of fc r d0 d1) = index r"
  "cells (segment_of fc r d0 d1) = cells r"
  "window_start (segment_of fc r d0 d1) = window_start r"
  "window_end (segment_of fc r d0 d1) = window_end r"
  "observed (segment_of fc r d0 d1) = observed_of fc r"
  "x0 (segment_of fc r d0 d1) = total_seconds d0"
  "x1 (segment_of fc r d0 d1) = total_seconds d1"
  "w (segment_of fc r d0 d1) = clip_lower 0 (f64 (total_seconds d1 - total_seconds d0))"
  by (simp_all add: segment_of_def Let_def)

lemma timeline_fit:
  assumes "timedeltas_fit ws"
  shows "timeline fc ws =
     Inr \<lparr>total_n = int (length ws),
          observed_n = int (length (filter (observed_of fc) ws)),
          outside_n = int (length ws) - int (length (filter (observed_of fc) ws)),
          t0 = series_min (map window_start ws),
          rows = (case series_min (map window_start ws) of
                    None \<Rightarrow> []
                  | Some t \<Rightarrow>
                      map (\<lambda>r. segment_of fc r (window_start r - t) (window_end r - t)) ws)\<rparr>"
proof (cases "series_min (map window_start ws)")
  case None
  then show ?thesis by (simp add: timeline_def Let_def)
next
  case (Some t)
  with assms show ?thesis
    by (simp add: timeline_def Let_def timedeltas_eq timedeltas_fit_iff map_zip_zip)
qed

lemma timeline_overflow:
  assumes "\<not> timedeltas_fit ws"
  shows "timeline fc ws =
     Inl (OverflowError \<lparr>total_n = int (length ws),
          observed_n = int (length (filter (observed_of fc) ws)),
          outside_n = int (length ws) - int (length (filter (observed_of fc) ws))\<rparr>)"
proof (cases "series_min (map window_start ws)")
  case None
  with assms show ?thesis by (simp add: timedeltas_fit_def)
next
  case (Some t)
  with assms show ?thesis
    by (auto simp: timeline_def Let_def timedeltas_eq timedeltas_fit_iff)
qed

subsection \<open>The schema checks\<close>

lemma normalize_present:
  "required_cols \<subseteq> set (columns df) \<Longrightarrow> fc \<in> set (columns df) \<Longrightarrow>
   normalize_df td sv df fc = timeline fc (prepare td sv (records df))"
  by (auto simp: normalize_df_def Let_def)

lemma prepare_fit:
  "sort_values_ok sv \<Longrightarrow>
   timedeltas_fit (prepare td sv rs) = timedeltas_fit (dropna (parse_times td rs))"
  unfolding prepare_def by (rule timedeltas_fit_cong) (rule sort_values_set)

subsection \<open>Runs that reach the plot, and runs that overflow\<close>

lemma run_fit:
  assumes "sort_values_ok sv"
    and "required_cols \<subseteq> set (columns df)" and "fc \<in> set (columns df)"
    and "timedeltas_fit (dropna (parse_times td (records df)))"
  obtains out where "normalize_df td sv df fc = Inr out"
    and "total_n out = int (length (prepare td sv (records df)))"
    and "t0 out = series_min (map window_start (prepare td sv (records df)))"
    and "rows out =
          (case series_min (map window_start (prepare td sv (records df))) of
             None \<Rightarrow> []
           | Some t \<Rightarrow>
               map (\<lambda>r. segment_of fc r (window_start r - t) (window_end r - t))
                 (prepare td sv (records df)))"
proof -
  from assms(1,4) have "timedeltas_fit (prepare td sv (records df))"
    by (simp add: prepare_fit)
  from timeline_fit [OF this, of fc] assms(2,3) that show ?thesis
    by (simp add: normalize_present)
qed

lemma run_overflow:
  assumes "sort_values_ok sv"
    and "required_cols \<subseteq> set (columns df)" and "fc \<in> set (columns df)"
    and "\<not> timedeltas_fit (dropna (parse_times td (records df)))"
  obtains s where "normalize_df td sv df fc = Inl (OverflowError s)"
    and "total_n s = int (length (prepare td sv (records df)))"
proof -
  from assms(1,4) have "\<not> timedeltas_fit (prepare td sv (records df))"
    by (simp add: prepare_fit)
  from timeline_overflow [OF this, of fc] assms(2,3) that show ?thesis
    by (simp add: normalize_present)
qed

subsection \<open>Rows of the result\<close>

lemma rows_E:
  assumes "rws = (case series_min (map window_start ws) of
             None \<Rightarrow> []
           | Some t \<Rightarrow> map (\<lambda>r. segment_of fc r (window_start r - t) (window_end r - t)) ws)"
    and "s \<in> set rws"
  obtains t r where "series_min (map window_start ws) = Some t" and "r \<in> set ws"
    and "s = segment_of fc r (window_start r - t) (window_end r - t)"
  using assms by (cases "series_min (map window_start ws)") auto

lemma rows_I:
  assumes "rws = (case series_min (map window_start ws) of
             None \<Rightarrow> []
           | Some t \<Rightarrow> map (\<lambda>r. segment_of fc r (window_start r - t) (window_end r - t)) ws)"
    and "r \<in> set ws"
  obtains t where "series_min (map window_start ws) = Some t"
    and "segment_of fc r (window_start r - t) (window_end r - t) \<in> set rws"
proof (cases "series_min (map window_start ws)")
  case None
  with assms(2) show ?thesis by (simp add: series_min_None)
next
  case (Some t)
  with assms that show ?thesis by auto
qed

lemma rows_map:
  assumes "rws = (case series_min (map window_start ws) of
             None \<Rightarrow> []
           | Some t \<Rightarrow> map (\<lambda>r. segment_of fc r (window_start r - t) (window_end r - t)) ws)"
  shows "map window_start rws = map window_start ws" and "map index rws = map index ws"
proof -
  show "map window_start rws = map window_start ws"
  proof (cases "series_min (map window_start ws)")
    case None
    with assms show ?thesis by (simp add: series_min_None)
  next
    case (Some t)
    with assms show ?thesis by (simp add: comp_def segment_of_simps)
  qed
  show "map index rws = map index ws"
  proof (cases "series_min (map window_start ws)")
    case None
    with assms show ?thesis by (simp add: series_min_None)
  next
    case (Some t)
    with assms show ?thesis by (simp add: comp_def segment_of_simps)
  qed
qed

lemma sorted_map_mono:
  assumes "sorted (map f xs)" and "\<And>x y. f x \<le> f y \<Longrightarrow> g x \<le> g y"
  shows "sorted (map g xs)"
  using assms by (induction xs) auto

subsection \<open>The instance\<close>

lemma to_datetime_iso_ok: "to_datetime_ok to_datetime_iso"
  by (simp add: to_datetime_ok_def to_datetime_iso_def)

lemma sort_values_insort_ok: "sort_values_ok sort_values_insort"
  by (simp add: sort_values_ok_def sort_values_insort_def)

lemmas iso_defs = to_datetime_iso_def iso8601_utc_def number_def days_from_civil_def
  days_in_month_def fits_int64_def int64_max_def

lemmas run_defs = timeline_def series_min_def timedeltas_def sub_overflowsafe_def
  fits_int64_def int64_max_def segment_of_def observed_of_def total_seconds_def
  clip_lower_def f64_exact

lemma sort_values_pair:
  assumes "sort_values_ok sv" and "window_start a < window_start b"
  shows "sv [a, b] = [a, b]"
proof -
  have m: "mset (sv [a, b]) = {#a, b#}" and s: "sorted (map window_start (sv [a, b]))"
    using assms(1) by (simp_all add: sort_values_ok_def)
  from m have "length (sv [a, b]) = 2"
    using mset_eq_length [of "sv [a, b]" "[a, b]"] by simp
  then obtain c d where cd: "sv [a, b] = [c, d]"
    by (cases "sv [a, b]"; cases "tl (sv [a, b])") auto
  with m have "{#c, d#} = {#a, b#}" by simp
  then have "c = a \<and> d = b \<or> c = b \<and> d = a"
    by (auto simp: add_eq_conv_ex)
  moreover from s cd have "window_start c \<le> window_start d" by simp
  ultimately show ?thesis using assms(2) cd by auto
qed

lemma parse_scenario:
  assumes "td [CStr ''2026-01-20T10:00:00Z'', CStr ''2026-01-20T10:00:10Z'']
             = [Some 1768903200000000000, Some 1768903210000000000]"
    and "td [CStr ''2026-01-20T10:00:05Z'', CStr ''2026-01-20T10:00:08Z'']
             = [Some 1768903205000000000, Some 1768903208000000000]"
  shows "dropna (parse_times td (records scenario)) =
     [\<lparr>index = 0, cells = records scenario ! 0,
          window_start = 1768903200000000000, window_end = 1768903205000000000\<rparr>,
      \<lparr>index = 1, cells = records scenario ! 1,
          window_start = 1768903210000000000, window_end = 1768903208000000000\<rparr>]"
  using assms
  by (simp add: dropna_def parse_times_def scenario_def List.map_filter_simps upt_rec)

lemma scenario_prepare:
  "prepare to_datetime_iso sort_values_insort (records scenario) =
     [\<lparr>index = 0, cells = records scenario ! 0,
          window_start = 1768903200000000000, window_end = 1768903205000000000\<rparr>,
      \<lparr>index = 1, cells = records scenario ! 1,
          window_start = 1768903210000000000, window_end = 1768903208000000000\<rparr>]"
  by (simp add: prepare_def dropna_def parse_times_def scenario_def List.map_filter_simps upt_rec
      iso_defs sort_values_insort_def)

lemma scenario_timeline:
  "timeline ''is_observed_strict''
     [\<lparr>index = 0, cells = records scenario ! 0,
          window_start = 1768903200000000000, window_end = 1768903205000000000\<rparr>,
      \<lparr>index = 1, cells = records scenario ! 1,
          window_start = 1768903210000000000, window_end = 1768903208000000000\<rparr>]
   = Inr scenario_out"
  by (simp add: run_defs scenario_def scenario_out_def)

subsection \<open>The tables, run\<close>

lemma scenario_run:
  "normalize_df to_datetime_iso sort_values_insort scenario ''is_observed_strict''
     = Inr scenario_out"
proof -
  have "required_cols \<subseteq> set (columns scenario)"
    "''is_observed_strict'' \<in> set (columns scenario)"
    by (simp_all add: required_cols_def scenario_def)
  then show ?thesis
    by (simp only: normalize_present scenario_prepare scenario_timeline)
qed

lemma scenario_fit:
  "timedeltas_fit (dropna (parse_times to_datetime_iso (records scenario)))"
  by (simp add: timedeltas_fit_def dropna_def parse_times_def scenario_def
      List.map_filter_simps upt_rec iso_defs series_min_def)

lemma scenario_cols:
  "required_cols \<subseteq> set (columns scenario)"
  "''is_observed_strict'' \<in> set (columns scenario)"
  "''is_observed_strict'' \<notin> required_cols"
  by (simp_all add: required_cols_def scenario_def)

lemma messy_prepare:
  "prepare to_datetime_iso sort_values_insort (records messy) =
     [\<lparr>index = 2, cells = records messy ! 2,
          window_start = 1768903200000000000, window_end = 1768903205000000000\<rparr>,
      \<lparr>index = 0, cells = records messy ! 0,
          window_start = 1768903210000000000, window_end = 1768903212000000000\<rparr>]"
  by (simp add: prepare_def dropna_def parse_times_def messy_def List.map_filter_simps upt_rec
      iso_defs sort_values_insort_def)

lemma messy_run:
  "normalize_df to_datetime_iso sort_values_insort messy ''is_outside_observation''
     = Inr messy_out"
proof -
  have cols: "required_cols \<subseteq> set (columns messy)"
    "''is_outside_observation'' \<in> set (columns messy)"
    by (simp_all add: required_cols_def messy_def)
  have "timeline ''is_outside_observation''
      (prepare to_datetime_iso sort_values_insort (records messy)) = Inr messy_out"
    unfolding messy_prepare by (simp add: run_defs messy_def messy_out_def)
  with cols show ?thesis by (simp add: normalize_present)
qed

lemma messy_fit:
  "timedeltas_fit (dropna (parse_times to_datetime_iso (records messy)))"
  by (simp add: timedeltas_fit_def dropna_def parse_times_def messy_def
      List.map_filter_simps upt_rec iso_defs series_min_def)

lemma messy_cols:
  "required_cols \<subseteq> set (columns messy)"
  "''is_outside_observation'' \<in> set (columns messy)"
  "''is_outside_observation'' \<notin> required_cols"
  by (simp_all add: required_cols_def messy_def)

lemma messy_unparseable:
  "filter (unparseable to_datetime_iso (records messy)) [0..<length (records messy)] = [1]"
  by (simp add: unparseable_def messy_def upt_rec iso_defs)

lemma blank_flag_cols:
  "required_cols \<subseteq> set (columns blank_flag)"
  "''is_observed'' \<in> set (columns blank_flag)"
  "''is_observed'' \<notin> required_cols"
  by (simp_all add: required_cols_def blank_flag_def scenario_def)

lemma blank_flag_fit:
  "timedeltas_fit (dropna (parse_times to_datetime_iso (records blank_flag)))"
  using scenario_fit by (simp add: blank_flag_def)

lemma blank_flag_run:
  "normalize_df to_datetime_iso sort_values_insort blank_flag ''is_observed'' =
     Inr (scenario_out\<lparr>observed_n := 2, outside_n := 0,
            rows := map (\<lambda>r. r\<lparr>observed := True\<rparr>) (rows scenario_out)\<rparr>)"
proof -
  have "timeline ''is_observed''
      (prepare to_datetime_iso sort_values_insort (records blank_flag)) =
     Inr (scenario_out\<lparr>observed_n := 2, outside_n := 0,
            rows := map (\<lambda>r. r\<lparr>observed := True\<rparr>) (rows scenario_out)\<rparr>)"
    unfolding blank_flag_def
    by (simp add: scenario_prepare) (simp add: run_defs scenario_def scenario_out_def)
  with blank_flag_cols show ?thesis by (simp add: normalize_present)
qed

lemma far_apart_cols:
  "required_cols \<subseteq> set (columns far_apart)"
  "''is_observed'' \<in> set (columns far_apart)"
  "''is_observed'' \<notin> required_cols"
  by (simp_all add: required_cols_def far_apart_def)

lemma far_apart_prepare:
  "prepare to_datetime_iso sort_values_insort (records far_apart) =
     [\<lparr>index = 0, cells = records far_apart ! 0,
          window_start = - 8520336000000000000, window_end = - 8520335999000000000\<rparr>,
      \<lparr>index = 1, cells = records far_apart ! 1,
          window_start = 8835955200000000000, window_end = 8835955201000000000\<rparr>]"
  by (simp add: prepare_def dropna_def parse_times_def far_apart_def List.map_filter_simps upt_rec
      iso_defs sort_values_insort_def)

lemma far_apart_unfit:
  "\<not> timedeltas_fit (dropna (parse_times to_datetime_iso (records far_apart)))"
  by (simp add: timedeltas_fit_def dropna_def parse_times_def far_apart_def
      List.map_filter_simps upt_rec iso_defs series_min_def)

lemma far_apart_run:
  "normalize_df to_datetime_iso sort_values_insort far_apart ''is_observed''
     = Inl (OverflowError \<lparr>total_n = 2, observed_n = 1, outside_n = 1\<rparr>)"
proof -
  have "timeline ''is_observed''
      (prepare to_datetime_iso sort_values_insort (records far_apart))
        = Inl (OverflowError \<lparr>total_n = 2, observed_n = 1, outside_n = 1\<rparr>)"
    unfolding far_apart_prepare by (simp add: run_defs far_apart_def)
  with far_apart_cols show ?thesis by (simp add: normalize_present)
qed

subsection \<open>Rows with equal starts\<close>

text \<open>
  What is assumed of \<^verbatim>\<open>sort_values\<close> does not settle the order of rows with equal
  \<^verbatim>\<open>window_start\<close>: both functions below meet it, and they order the two tied rows
  differently.
\<close>

lemma sorted_rev_uminus:
  fixes xs :: "int list"
  shows "sorted (map uminus xs) \<Longrightarrow> sorted (rev xs)"
  by (induction xs) (auto simp: sorted_append)

lemma sort_values_ties_last_first_ok: "sort_values_ok sort_values_ties_last_first"
proof -
  have "sorted (map window_start (sort_values_ties_last_first rs))" for rs
  proof -
    have "sorted (map (\<lambda>r. - window_start r) (sort_key (\<lambda>r. - window_start r) rs))"
      by (rule sorted_sort_key)
    then have "sorted (map uminus (map window_start (sort_key (\<lambda>r. - window_start r) rs)))"
      by (simp add: comp_def)
    then have "sorted (rev (map window_start (sort_key (\<lambda>r. - window_start r) rs)))"
      by (rule sorted_rev_uminus)
    then show ?thesis by (simp add: sort_values_ties_last_first_def rev_map)
  qed
  then show ?thesis by (simp add: sort_values_ok_def sort_values_ties_last_first_def)
qed

lemma ties_order_open:
  "map index (sort_values_insort tied) = [0, 1]"
  "map index (sort_values_ties_last_first tied) = [1, 0]"
  by (simp_all add: tied_def sort_values_insort_def sort_values_ties_last_first_def)

section \<open>The claims\<close>

text \<open>
  The claims about the rows of the result are stated for every table that has the
  columns: either all differences of lines 62 and 63 fit 64 bits (\<open>timedeltas_fit\<close> of the
  parsed rows), the script reaches the plot and the property holds of what it has
  computed; or one does not fit, and the script stops at line 62 or 63 with
  \<^verbatim>\<open>OverflowError\<close>, after the summary.
\<close>

text \<open>
  Claim C1. The table of the scenario has two rows: the first from 10:00:00 to 10:00:05 on
  2026-01-20 with \<^verbatim>\<open>is_observed_strict\<close> true, the second from 10:00:10 to 10:00:08 with
  the flag false. Whenever the parser reads the four strings as those instants (in
  nanoseconds since 1970) and the sort meets its contract, the script reaches the plot with
  \<open>scenario_out\<close>: epoch 10:00:00, first row \<open>x0 = 0\<close>, \<open>x1 = 5\<close>, \<open>w = 5\<close>, observed;
  second row \<open>x0 = 10\<close>, \<open>x1 = 8\<close>, \<open>w = 0\<close>, not observed; two rows in all, one
  observed, one outside.
\<close>

theorem scenario_two_rows:
  assumes "sort_values_ok sv"
    and "td [CStr ''2026-01-20T10:00:00Z'', CStr ''2026-01-20T10:00:10Z'']
             = [Some 1768903200000000000, Some 1768903210000000000]"
    and "td [CStr ''2026-01-20T10:00:05Z'', CStr ''2026-01-20T10:00:08Z'']
             = [Some 1768903205000000000, Some 1768903208000000000]"
  shows "normalize_df td sv scenario ''is_observed_strict'' = Inr scenario_out"
proof -
  have cols: "required_cols \<subseteq> set (columns scenario)"
    "''is_observed_strict'' \<in> set (columns scenario)"
    by (simp_all add: required_cols_def scenario_def)
  have "prepare td sv (records scenario) =
     [\<lparr>index = 0, cells = records scenario ! 0,
          window_start = 1768903200000000000, window_end = 1768903205000000000\<rparr>,
      \<lparr>index = 1, cells = records scenario ! 1,
          window_start = 1768903210000000000, window_end = 1768903208000000000\<rparr>]"
    unfolding prepare_def parse_scenario [OF assms(2,3)]
    by (rule sort_values_pair [OF assms(1)]) simp
  with cols show ?thesis by (simp only: normalize_present scenario_timeline)
qed

theorem scenario_two_rows_witness:
  "normalize_df to_datetime_iso sort_values_insort scenario ''is_observed_strict''
     = Inr scenario_out"
  by (rule scenario_two_rows [OF sort_values_insort_ok]) (simp_all add: iso_defs)

text \<open>
  Claim C2. Every row of the result comes from a row of the table, and its \<^verbatim>\<open>_observed\<close>
  is the negated truth value of that row's flag cell when the flag column is
  \<^verbatim>\<open>is_outside_observation\<close>, and the truth value itself under any other flag column.
  The truth value of a cell is written out: a missing value is true, a boolean is itself,
  a number is true unless zero, a string is true unless empty. So a flag cell \<^verbatim>\<open>True\<close>
  gives \<^verbatim>\<open>_observed = False\<close> under \<^verbatim>\<open>is_outside_observation\<close> and \<^verbatim>\<open>True\<close> under
  every other column, and a flag cell \<^verbatim>\<open>False\<close> the reverse. The flag column is not one
  of the two timestamp columns, whose cells lines 38 and 39 replace.
\<close>

theorem observed_follows_flag:
  assumes "to_datetime_ok td" and "sort_values_ok sv"
    and "required_cols \<subseteq> set (columns df)" and "flag_col \<in> set (columns df)"
    and "flag_col \<notin> required_cols"
  shows "if timedeltas_fit (dropna (parse_times td (records df)))
    then \<exists>out. normalize_df td sv df flag_col = Inr out \<and>
      (\<forall>r\<in>set (rows out). index r < length (records df) \<and>
         observed r =
           (let truth = (case (records df ! index r) flag_col of
                           CNaN \<Rightarrow> True
                         | CBool b \<Rightarrow> b
                         | CInt i \<Rightarrow> i \<noteq> 0
                         | CFloat x \<Rightarrow> x \<noteq> 0
                         | CStr s \<Rightarrow> s \<noteq> [])
            in if flag_col = ''is_outside_observation'' then \<not> truth else truth) \<and>
         ((records df ! index r) flag_col = CBool True \<longrightarrow>
            observed r = (flag_col \<noteq> ''is_outside_observation'')) \<and>
         ((records df ! index r) flag_col = CBool False \<longrightarrow>
            observed r = (flag_col = ''is_outside_observation'')))
    else \<exists>s. normalize_df td sv df flag_col = Inl (OverflowError s)"
proof (cases "timedeltas_fit (dropna (parse_times td (records df)))")
  case True
  let ?rs = "records df"
  from assms(2,3,4) True obtain out where run: "normalize_df td sv df flag_col = Inr out"
    and rws: "rows out =
          (case series_min (map window_start (prepare td sv ?rs)) of
             None \<Rightarrow> []
           | Some t \<Rightarrow>
               map (\<lambda>r. segment_of flag_col r (window_start r - t) (window_end r - t))
                 (prepare td sv ?rs))"
    by (rule run_fit)
  have "index s < length ?rs \<and>
         observed s =
           (let truth = (case (?rs ! index s) flag_col of
                           CNaN \<Rightarrow> True
                         | CBool b \<Rightarrow> b
                         | CInt i \<Rightarrow> i \<noteq> 0
                         | CFloat x \<Rightarrow> x \<noteq> 0
                         | CStr s \<Rightarrow> s \<noteq> [])
            in if flag_col = ''is_outside_observation'' then \<not> truth else truth) \<and>
         ((?rs ! index s) flag_col = CBool True \<longrightarrow>
            observed s = (flag_col \<noteq> ''is_outside_observation'')) \<and>
         ((?rs ! index s) flag_col = CBool False \<longrightarrow>
            observed s = (flag_col = ''is_outside_observation''))"
    if "s \<in> set (rows out)" for s
  proof -
    from rws that obtain t r where r: "r \<in> set (prepare td sv ?rs)"
      and s: "s = segment_of flag_col r (window_start r - t) (window_end r - t)"
      by (rule rows_E)
    from r obtain i where i: "i < length ?rs" "parsed_at td ?rs i = Some r"
      using assms(1,2) by (auto simp: prepare_set)
    then have "index r = i" "cells r = ?rs ! i" by (simp_all add: parsed_at_Some_iff)
    with i(1) s show ?thesis
      by (cases "(?rs ! i) flag_col"; cases "flag_col = ''is_outside_observation''")
        (simp_all add: segment_of_simps observed_of_def)
  qed
  with run True show ?thesis by auto
next
  case False
  with assms(2,3,4) show ?thesis by (auto elim: run_overflow)
qed

theorem observed_follows_flag_witness:
  "to_datetime_ok to_datetime_iso \<and> sort_values_ok sort_values_insort \<and>
   required_cols \<subseteq> set (columns messy) \<and>
   ''is_outside_observation'' \<in> set (columns messy) \<and>
   ''is_outside_observation'' \<notin> required_cols \<and>
   timedeltas_fit (dropna (parse_times to_datetime_iso (records messy))) \<and>
   (\<exists>out. normalize_df to_datetime_iso sort_values_insort messy ''is_outside_observation''
            = Inr out \<and>
      map index (rows out) = [2, 0] \<and> map observed (rows out) = [False, False] \<and>
      (records messy ! 2) ''is_outside_observation'' = CNaN \<and>
      (records messy ! 0) ''is_outside_observation'' = CBool True) \<and>
   required_cols \<subseteq> set (columns scenario) \<and>
   ''is_observed_strict'' \<in> set (columns scenario) \<and>
   ''is_observed_strict'' \<notin> required_cols \<and>
   timedeltas_fit (dropna (parse_times to_datetime_iso (records scenario))) \<and>
   (\<exists>out. normalize_df to_datetime_iso sort_values_insort scenario ''is_observed_strict''
            = Inr out \<and>
      map index (rows out) = [0, 1] \<and> map observed (rows out) = [True, False] \<and>
      (records scenario ! 0) ''is_observed_strict'' = CBool True \<and>
      (records scenario ! 1) ''is_observed_strict'' = CBool False)"
  using observed_follows_flag [OF to_datetime_iso_ok sort_values_insort_ok messy_cols]
    observed_follows_flag [OF to_datetime_iso_ok sort_values_insort_ok scenario_cols]
    to_datetime_iso_ok sort_values_insort_ok messy_cols messy_run messy_fit
    scenario_cols scenario_run scenario_fit
  by (auto simp: messy_out_def messy_def scenario_out_def scenario_def)

text \<open>
  Claim C3. When both timestamp columns and the flag column are present and the
  differences fit, the script reaches the plot, and the rows it has then are ascending in
  \<^verbatim>\<open>window_start\<close>; hence \<^verbatim>\<open>x0\<close> never decreases along them (the conversion to
  seconds, rounding included, is monotone).
\<close>

theorem rows_ascending:
  assumes "sort_values_ok sv"
    and "required_cols \<subseteq> set (columns df)" and "flag_col \<in> set (columns df)"
  shows "if timedeltas_fit (dropna (parse_times td (records df)))
    then \<exists>out. normalize_df td sv df flag_col = Inr out \<and>
      sorted (map window_start (rows out)) \<and> sorted (map x0 (rows out))
    else \<exists>s. normalize_df td sv df flag_col = Inl (OverflowError s)"
proof (cases "timedeltas_fit (dropna (parse_times td (records df)))")
  case True
  let ?ws = "prepare td sv (records df)"
  from assms True obtain out where run: "normalize_df td sv df flag_col = Inr out"
    and rws: "rows out =
          (case series_min (map window_start ?ws) of
             None \<Rightarrow> []
           | Some t \<Rightarrow>
               map (\<lambda>r. segment_of flag_col r (window_start r - t) (window_end r - t)) ?ws)"
    by (rule run_fit)
  have s: "sorted (map window_start ?ws)"
    using assms(1) by (rule prepare_sorted)
  then have s1: "sorted (map window_start (rows out))"
    by (simp only: rows_map(1) [OF rws])
  have s2: "sorted (map x0 (rows out))"
  proof (cases "series_min (map window_start ?ws)")
    case None
    with rws show ?thesis by simp
  next
    case (Some t)
    have "sorted (map (\<lambda>r. total_seconds (window_start r - t)) ?ws)"
      using s by (rule sorted_map_mono) (simp add: total_seconds_mono)
    with rws Some show ?thesis by (simp add: comp_def segment_of_simps)
  qed
  from run s1 s2 True show ?thesis by auto
next
  case False
  with assms show ?thesis by (auto elim: run_overflow)
qed

theorem rows_ascending_witness:
  "sort_values_ok sort_values_insort \<and> required_cols \<subseteq> set (columns messy) \<and>
   ''is_outside_observation'' \<in> set (columns messy) \<and>
   timedeltas_fit (dropna (parse_times to_datetime_iso (records messy))) \<and>
   (\<exists>out. normalize_df to_datetime_iso sort_values_insort messy ''is_outside_observation''
            = Inr out \<and>
      map index (rows out) = [2, 0] \<and>
      map window_start (rows out) = [1768903200000000000, 1768903210000000000] \<and>
      map x0 (rows out) = [0, 10] \<and>
      sorted (map window_start (rows out)) \<and> sorted (map x0 (rows out))) \<and>
   required_cols \<subseteq> set (columns far_apart) \<and> ''is_observed'' \<in> set (columns far_apart) \<and>
   \<not> timedeltas_fit (dropna (parse_times to_datetime_iso (records far_apart))) \<and>
   normalize_df to_datetime_iso sort_values_insort far_apart ''is_observed''
     = Inl (OverflowError \<lparr>total_n = 2, observed_n = 1, outside_n = 1\<rparr>)"
  using rows_ascending [OF sort_values_insort_ok messy_cols(1,2), of to_datetime_iso]
    rows_ascending [OF sort_values_insort_ok far_apart_cols(1,2), of to_datetime_iso]
    sort_values_insort_ok messy_cols messy_run messy_fit
    far_apart_cols far_apart_unfit far_apart_run
  by (auto simp: messy_out_def)



text \<open>
  Claim C5, as stated: in every row of the result \<open>x0 \<le> x1\<close>. It fails on the second row
  of the scenario, where \<open>x0 = 10\<close> and \<open>x1 = 8\<close>: line 64 clips the width \<^verbatim>\<open>w\<close>, and
  \<^verbatim>\<open>x1\<close> stays as line 63 computed it.
\<close>

theorem offset_end_not_clamped_counterexample:
  "normalize_df to_datetime_iso sort_values_insort scenario ''is_observed_strict''
     = Inr scenario_out \<and>
   x0 (rows scenario_out ! 1) = 10 \<and> x1 (rows scenario_out ! 1) = 8 \<and>
   \<not> x0 (rows scenario_out ! 1) \<le> x1 (rows scenario_out ! 1)"
  using scenario_run by (simp add: scenario_out_def)

text \<open>
  Claim C5, amended. In every row of the result whose \<^verbatim>\<open>window_end\<close> is not before its
  \<^verbatim>\<open>window_start\<close>, \<open>x0 \<le> x1\<close>.
\<close>

theorem offsets_ordered_when_window_is:
  assumes "sort_values_ok sv"
    and "required_cols \<subseteq> set (columns df)" and "flag_col \<in> set (columns df)"
  shows "if timedeltas_fit (dropna (parse_times td (records df)))
    then \<exists>out. normalize_df td sv df flag_col = Inr out \<and>
      (\<forall>r\<in>set (rows out). window_start r \<le> window_end r \<longrightarrow> x0 r \<le> x1 r)
    else \<exists>s. normalize_df td sv df flag_col = Inl (OverflowError s)"
proof (cases "timedeltas_fit (dropna (parse_times td (records df)))")
  case True
  let ?ws = "prepare td sv (records df)"
  from assms True obtain out where run: "normalize_df td sv df flag_col = Inr out"
    and rws: "rows out =
          (case series_min (map window_start ?ws) of
             None \<Rightarrow> []
           | Some t \<Rightarrow>
               map (\<lambda>r. segment_of flag_col r (window_start r - t) (window_end r - t)) ?ws)"
    by (rule run_fit)
  have "x0 s \<le> x1 s" if "s \<in> set (rows out)" "window_start s \<le> window_end s" for s
  proof -
    from rws that(1) obtain t r
      where s: "s = segment_of flag_col r (window_start r - t) (window_end r - t)"
      by (rule rows_E)
    from that(2) s have "window_start r - t \<le> window_end r - t"
      by (simp add: segment_of_simps)
    then have "total_seconds (window_start r - t) \<le> total_seconds (window_end r - t)"
      by (rule total_seconds_mono)
    with s show ?thesis by (simp add: segment_of_simps)
  qed
  with run True show ?thesis by auto
next
  case False
  with assms show ?thesis by (auto elim: run_overflow)
qed

theorem offsets_ordered_when_window_is_witness:
  "sort_values_ok sort_values_insort \<and> required_cols \<subseteq> set (columns scenario) \<and>
   ''is_observed_strict'' \<in> set (columns scenario) \<and>
   timedeltas_fit (dropna (parse_times to_datetime_iso (records scenario))) \<and>
   (\<exists>out. normalize_df to_datetime_iso sort_values_insort scenario ''is_observed_strict''
            = Inr out \<and>
      map window_start (rows out) = [1768903200000000000, 1768903210000000000] \<and>
      map window_end (rows out) = [1768903205000000000, 1768903208000000000] \<and>
      map x0 (rows out) = [0, 10] \<and> map x1 (rows out) = [5, 8])"
  using offsets_ordered_when_window_is [OF sort_values_insort_ok scenario_cols(1,2),
      of to_datetime_iso]
    sort_values_insort_ok scenario_cols scenario_run scenario_fit
  by (auto simp: scenario_out_def)

text \<open>
  Claim C7. When \<^verbatim>\<open>window_start\<close>, \<^verbatim>\<open>window_end\<close> or the chosen flag column is not
  among the columns, the script halts with an error: the missing required columns when
  there are any, the flag column otherwise. The error depends on the column names and the
  flag column alone: with any other rows, parser and sort it is the same, so it comes
  before any row is read, and nothing is computed.
\<close>

theorem schema_error_before_rows:
  assumes "''window_start'' \<notin> set (columns df) \<or> ''window_end'' \<notin> set (columns df)
           \<or> flag_col \<notin> set (columns df)"
  shows "\<exists>e. normalize_df td sv df flag_col = Inl e \<and>
             e = (if required_cols - set (columns df) \<noteq> {}
                  then MissingColumns (required_cols - set (columns df))
                  else MissingFlag flag_col) \<and>
             (\<forall>td' sv' rs'. normalize_df td' sv' (df\<lparr>records := rs'\<rparr>) flag_col = Inl e)"
  using assms by (auto simp: normalize_df_def Let_def required_cols_def)

theorem schema_error_before_rows_witness:
  "normalize_df to_datetime_iso sort_values_insort
      (scenario\<lparr>columns := [''window_start'', ''is_observed_strict'']\<rparr>) ''is_observed_strict''
     = Inl (MissingColumns {''window_end''}) \<and>
   (\<forall>td' sv' rs'. normalize_df td' sv'
      (scenario\<lparr>columns := [''window_start'', ''is_observed_strict''], records := rs'\<rparr>)
      ''is_observed_strict'' = Inl (MissingColumns {''window_end''}))"
  using schema_error_before_rows [of "scenario\<lparr>columns := [''window_start'', ''is_observed_strict'']\<rparr>"
      "''is_observed_strict''" to_datetime_iso sort_values_insort]
  by (simp add: required_cols_def insert_Diff_if)

text \<open>
  Claim C8. A row is unparseable when the parser gives \<^verbatim>\<open>NaT\<close> for its
  \<^verbatim>\<open>window_start\<close> or its \<^verbatim>\<open>window_end\<close>. With the columns present, such rows raise
  no error: the one error left, the overflow of lines 62 and 63, is decided by the rows
  that parsed. In either case \<^verbatim>\<open>total\<close>, as written to the sidebar, is the number of
  rows of the table less the number of unparseable ones. When the script reaches the
  plot, the rows of the result are, by index label, exactly the other rows, each once,
  and each of them has its own cells and its own two parsed timestamps.
\<close>

theorem unparseable_rows_dropped:
  assumes "to_datetime_ok td" and "sort_values_ok sv"
    and "required_cols \<subseteq> set (columns df)" and "flag_col \<in> set (columns df)"
  shows "if timedeltas_fit (dropna (parse_times td (records df)))
    then \<exists>out. normalize_df td sv df flag_col = Inr out \<and>
      total_n out = int (length (records df)) -
         int (length (filter (unparseable td (records df)) [0..<length (records df)])) \<and>
      mset (map index (rows out)) =
         mset (filter (\<lambda>i. \<not> unparseable td (records df) i) [0..<length (records df)]) \<and>
      (\<forall>r\<in>set (rows out). cells r = records df ! index r \<and>
         td (map (\<lambda>r. r ''window_start'') (records df)) ! index r = Some (window_start r) \<and>
         td (map (\<lambda>r. r ''window_end'') (records df)) ! index r = Some (window_end r))
    else \<exists>s. normalize_df td sv df flag_col = Inl (OverflowError s) \<and>
      total_n s = int (length (records df)) -
         int (length (filter (unparseable td (records df)) [0..<length (records df)]))"
proof (cases "timedeltas_fit (dropna (parse_times td (records df)))")
  case True
  let ?rs = "records df"
  let ?ws = "prepare td sv ?rs"
  from assms(2,3,4) True obtain out where run: "normalize_df td sv df flag_col = Inr out"
    and tot: "total_n out = int (length ?ws)"
    and rws: "rows out =
          (case series_min (map window_start ?ws) of
             None \<Rightarrow> []
           | Some t \<Rightarrow>
               map (\<lambda>r. segment_of flag_col r (window_start r - t) (window_end r - t)) ?ws)"
    by (rule run_fit)
  from tot have tot': "total_n out =
      int (length ?rs) - int (length (filter (unparseable td ?rs) [0..<length ?rs]))"
    using assms(1,2) by (simp add: prepare_length)
  have idx: "mset (map index (rows out)) =
       mset (filter (\<lambda>i. \<not> unparseable td ?rs i) [0..<length ?rs])"
    using assms(1,2) by (simp only: rows_map(2) [OF rws] prepare_index)
  have same: "cells s = ?rs ! index s \<and>
       td (map (\<lambda>r. r ''window_start'') ?rs) ! index s = Some (window_start s) \<and>
       td (map (\<lambda>r. r ''window_end'') ?rs) ! index s = Some (window_end s)"
    if "s \<in> set (rows out)" for s
  proof -
    from rws that obtain t r where r: "r \<in> set ?ws"
      and s: "s = segment_of flag_col r (window_start r - t) (window_end r - t)"
      by (rule rows_E)
    from r obtain i where "i < length ?rs" "parsed_at td ?rs i = Some r"
      using assms(1,2) by (auto simp: prepare_set)
    with s show ?thesis by (simp add: segment_of_simps parsed_at_Some_iff)
  qed
  from run tot' idx same have "\<exists>out. normalize_df td sv df flag_col = Inr out \<and>
      total_n out = int (length ?rs) -
         int (length (filter (unparseable td ?rs) [0..<length ?rs])) \<and>
      mset (map index (rows out)) =
         mset (filter (\<lambda>i. \<not> unparseable td ?rs i) [0..<length ?rs]) \<and>
      (\<forall>r\<in>set (rows out). cells r = ?rs ! index r \<and>
         td (map (\<lambda>r. r ''window_start'') ?rs) ! index r = Some (window_start r) \<and>
         td (map (\<lambda>r. r ''window_end'') ?rs) ! index r = Some (window_end r))"
    by blast
  with True show ?thesis by simp
next
  case False
  from assms(2,3,4) False obtain s where "normalize_df td sv df flag_col = Inl (OverflowError s)"
    and "total_n s = int (length (prepare td sv (records df)))"
    by (rule run_overflow)
  with assms(1,2) False show ?thesis by (simp add: prepare_length)
qed

theorem unparseable_rows_dropped_witness:
  "to_datetime_ok to_datetime_iso \<and> sort_values_ok sort_values_insort \<and>
   required_cols \<subseteq> set (columns messy) \<and>
   ''is_outside_observation'' \<in> set (columns messy) \<and>
   length (records messy) = 3 \<and>
   filter (unparseable to_datetime_iso (records messy)) [0..<length (records messy)] = [1] \<and>
   timedeltas_fit (dropna (parse_times to_datetime_iso (records messy))) \<and>
   (\<exists>out. normalize_df to_datetime_iso sort_values_insort messy ''is_outside_observation''
            = Inr out \<and>
      total_n out = 2 \<and> map index (rows out) = [2, 0]) \<and>
   required_cols \<subseteq> set (columns far_apart) \<and> ''is_observed'' \<in> set (columns far_apart) \<and>
   length (records far_apart) = 2 \<and>
   filter (unparseable to_datetime_iso (records far_apart)) [0..<length (records far_apart)]
     = [] \<and>
   \<not> timedeltas_fit (dropna (parse_times to_datetime_iso (records far_apart))) \<and>
   (\<exists>s. normalize_df to_datetime_iso sort_values_insort far_apart ''is_observed''
            = Inl (OverflowError s) \<and> total_n s = 2)"
proof -
  have u: "filter (unparseable to_datetime_iso (records far_apart))
      [0..<length (records far_apart)] = []"
    "length (records far_apart) = 2"
    by (simp_all add: unparseable_def far_apart_def upt_rec iso_defs)
  from unparseable_rows_dropped [OF to_datetime_iso_ok sort_values_insort_ok messy_cols(1,2)]
    unparseable_rows_dropped [OF to_datetime_iso_ok sort_values_insort_ok far_apart_cols(1,2)]
    to_datetime_iso_ok sort_values_insort_ok messy_cols messy_run messy_unparseable messy_fit
    far_apart_cols far_apart_unfit far_apart_run u
  show ?thesis by (auto simp: messy_out_def messy_def)
qed

text \<open>
  Claim C9. In every row of the result \<open>x0 \<ge> 0\<close>. When the result has rows, \<^verbatim>\<open>t0\<close> is
  the least \<^verbatim>\<open>window_start\<close> among them and the first row has \<open>x0 = 0\<close>.
\<close>

theorem offsets_start_at_zero:
  assumes "sort_values_ok sv"
    and "required_cols \<subseteq> set (columns df)" and "flag_col \<in> set (columns df)"
  shows "if timedeltas_fit (dropna (parse_times td (records df)))
    then \<exists>out. normalize_df td sv df flag_col = Inr out \<and>
      (\<forall>r\<in>set (rows out). 0 \<le> x0 r) \<and>
      (rows out \<noteq> [] \<longrightarrow>
         t0 out = Some (Min (set (map window_start (rows out)))) \<and> x0 (hd (rows out)) = 0)
    else \<exists>s. normalize_df td sv df flag_col = Inl (OverflowError s)"
proof (cases "timedeltas_fit (dropna (parse_times td (records df)))")
  case True
  let ?ws = "prepare td sv (records df)"
  from assms True obtain out where run: "normalize_df td sv df flag_col = Inr out"
    and t0: "t0 out = series_min (map window_start ?ws)"
    and rws: "rows out =
          (case series_min (map window_start ?ws) of
             None \<Rightarrow> []
           | Some t \<Rightarrow>
               map (\<lambda>r. segment_of flag_col r (window_start r - t) (window_end r - t)) ?ws)"
    by (rule run_fit)
  have nonneg: "0 \<le> x0 s" if "s \<in> set (rows out)" for s
  proof -
    from rws that obtain t r where t: "series_min (map window_start ?ws) = Some t"
      and r: "r \<in> set ?ws"
      and s: "s = segment_of flag_col r (window_start r - t) (window_end r - t)"
      by (rule rows_E)
    from t r have "t \<le> window_start r" by (auto intro: series_min_le)
    then have "0 \<le> total_seconds (window_start r - t)"
      by (intro total_seconds_nonneg) simp
    with s show ?thesis by (simp add: segment_of_simps)
  qed
  have first: "t0 out = Some (Min (set (map window_start (rows out)))) \<and> x0 (hd (rows out)) = 0"
    if "rows out \<noteq> []"
  proof -
    from that rws obtain t where t: "series_min (map window_start ?ws) = Some t"
      by (cases "series_min (map window_start ?ws)") auto
    then have ne: "?ws \<noteq> []" by (auto simp: series_min_def)
    from rws t have r: "rows out =
        map (\<lambda>r. segment_of flag_col r (window_start r - t) (window_end r - t)) ?ws"
      by simp
    have "sorted (map window_start ?ws)" using assms(1) by (rule prepare_sorted)
    from series_min_sorted [OF this t] ne have "t = window_start (hd ?ws)"
      by (simp add: hd_map)
    with r ne have x: "x0 (hd (rows out)) = 0"
      by (simp add: hd_map segment_of_simps total_seconds_0)
    from ne t0 have "t0 out = Some (Min (set (map window_start ?ws)))"
      by (simp add: series_min_Min del: Min.set_eq_fold)
    then have "t0 out = Some (Min (set (map window_start (rows out))))"
      by (simp only: rows_map(1) [OF rws])
    with x show ?thesis by simp
  qed
  from run nonneg first have "\<exists>out. normalize_df td sv df flag_col = Inr out \<and>
      (\<forall>r\<in>set (rows out). 0 \<le> x0 r) \<and>
      (rows out \<noteq> [] \<longrightarrow>
         t0 out = Some (Min (set (map window_start (rows out)))) \<and> x0 (hd (rows out)) = 0)"
    by blast
  with True show ?thesis by simp
next
  case False
  with assms show ?thesis by (auto elim: run_overflow)
qed

theorem offsets_start_at_zero_witness:
  "sort_values_ok sort_values_insort \<and> required_cols \<subseteq> set (columns messy) \<and>
   ''is_outside_observation'' \<in> set (columns messy) \<and>
   timedeltas_fit (dropna (parse_times to_datetime_iso (records messy))) \<and>
   (\<exists>out. normalize_df to_datetime_iso sort_values_insort messy ''is_outside_observation''
            = Inr out \<and>
      rows out \<noteq> [] \<and> t0 out = Some 1768903200000000000 \<and> map x0 (rows out) = [0, 10] \<and>
      x0 (hd (rows out)) = 0)"
  using offsets_start_at_zero [OF sort_values_insort_ok messy_cols(1,2), of to_datetime_iso]
    sort_values_insort_ok messy_cols messy_run messy_fit
  by (auto simp: messy_out_def)

text \<open>
  Claim C10. A row whose timestamps parse and whose flag cell is missing is in the result,
  and the missing flag raises no error: the missing value counts as true, so the row has
  \<^verbatim>\<open>_observed = False\<close> under the flag column \<^verbatim>\<open>is_outside_observation\<close> and
  \<^verbatim>\<open>_observed = True\<close> under any other. The flag column is not one of the two timestamp
  columns.
\<close>

theorem missing_flag_is_true:
  assumes "to_datetime_ok td" and "sort_values_ok sv"
    and "required_cols \<subseteq> set (columns df)" and "flag_col \<in> set (columns df)"
    and "flag_col \<notin> required_cols"
    and "i < length (records df)" and "\<not> unparseable td (records df) i"
    and "(records df ! i) flag_col = CNaN"
  shows "if timedeltas_fit (dropna (parse_times td (records df)))
    then \<exists>out. normalize_df td sv df flag_col = Inr out \<and>
      (\<exists>r\<in>set (rows out). index r = i) \<and>
      (\<forall>r\<in>set (rows out). index r = i \<longrightarrow>
          observed r = (flag_col \<noteq> ''is_outside_observation''))
    else \<exists>s. normalize_df td sv df flag_col = Inl (OverflowError s)"
proof (cases "timedeltas_fit (dropna (parse_times td (records df)))")
  case True
  let ?rs = "records df"
  let ?ws = "prepare td sv ?rs"
  from assms(2,3,4) True obtain out where run: "normalize_df td sv df flag_col = Inr out"
    and rws: "rows out =
          (case series_min (map window_start ?ws) of
             None \<Rightarrow> []
           | Some t \<Rightarrow>
               map (\<lambda>r. segment_of flag_col r (window_start r - t) (window_end r - t)) ?ws)"
    by (rule run_fit)
  from assms(7) obtain r where p: "parsed_at td ?rs i = Some r"
    by (cases "parsed_at td ?rs i") (simp_all add: parsed_at_None_iff)
  with assms(1,2,6) have "r \<in> set ?ws" by (auto simp: prepare_set)
  with rws obtain t
    where "segment_of flag_col r (window_start r - t) (window_end r - t) \<in> set (rows out)"
    by (rule rows_I)
  moreover from p
  have "index (segment_of flag_col r (window_start r - t) (window_end r - t)) = i"
    by (simp add: segment_of_simps parsed_at_Some_iff)
  ultimately have kept: "\<exists>r\<in>set (rows out). index r = i" by blast
  have obs: "observed s = (flag_col \<noteq> ''is_outside_observation'')"
    if "s \<in> set (rows out)" "index s = i" for s
  proof -
    from rws that(1) obtain t r where r: "r \<in> set ?ws"
      and s: "s = segment_of flag_col r (window_start r - t) (window_end r - t)"
      by (rule rows_E)
    from r obtain j where "j < length ?rs" "parsed_at td ?rs j = Some r"
      using assms(1,2) by (auto simp: prepare_set)
    then have "cells r = ?rs ! index r" by (simp add: parsed_at_Some_iff)
    with s that(2) assms(8) show ?thesis
      by (cases "flag_col = ''is_outside_observation''")
        (simp_all add: segment_of_simps observed_of_def)
  qed
  from run kept obs have "\<exists>out. normalize_df td sv df flag_col = Inr out \<and>
      (\<exists>r\<in>set (rows out). index r = i) \<and>
      (\<forall>r\<in>set (rows out). index r = i \<longrightarrow>
          observed r = (flag_col \<noteq> ''is_outside_observation''))"
    by blast
  with True show ?thesis by simp
next
  case False
  with assms(2,3,4) show ?thesis by (auto elim: run_overflow)
qed

theorem missing_flag_is_true_witness:
  "to_datetime_ok to_datetime_iso \<and> sort_values_ok sort_values_insort \<and>
   required_cols \<subseteq> set (columns messy) \<and>
   ''is_outside_observation'' \<in> set (columns messy) \<and>
   ''is_outside_observation'' \<notin> required_cols \<and>
   2 < length (records messy) \<and> \<not> unparseable to_datetime_iso (records messy) 2 \<and>
   (records messy ! 2) ''is_outside_observation'' = CNaN \<and>
   timedeltas_fit (dropna (parse_times to_datetime_iso (records messy))) \<and>
   (\<exists>out. normalize_df to_datetime_iso sort_values_insort messy ''is_outside_observation''
            = Inr out \<and>
      index (rows out ! 0) = 2 \<and> observed (rows out ! 0) = False) \<and>
   required_cols \<subseteq> set (columns blank_flag) \<and>
   ''is_observed'' \<in> set (columns blank_flag) \<and>
   ''is_observed'' \<notin> required_cols \<and>
   0 < length (records blank_flag) \<and> \<not> unparseable to_datetime_iso (records blank_flag) 0 \<and>
   (records blank_flag ! 0) ''is_observed'' = CNaN \<and>
   timedeltas_fit (dropna (parse_times to_datetime_iso (records blank_flag))) \<and>
   (\<exists>out. normalize_df to_datetime_iso sort_values_insort blank_flag ''is_observed''
            = Inr out \<and>
      index (rows out ! 0) = 0 \<and> observed (rows out ! 0) = True)"
proof -
  have h: "2 < length (records messy)" "\<not> unparseable to_datetime_iso (records messy) 2"
    "(records messy ! 2) ''is_outside_observation'' = CNaN"
    by (simp_all add: unparseable_def messy_def iso_defs)
  have k: "0 < length (records blank_flag)"
    "\<not> unparseable to_datetime_iso (records blank_flag) 0"
    "(records blank_flag ! 0) ''is_observed'' = CNaN"
    by (simp_all add: unparseable_def blank_flag_def scenario_def iso_defs)
  from missing_flag_is_true [OF to_datetime_iso_ok sort_values_insort_ok messy_cols h]
    missing_flag_is_true [OF to_datetime_iso_ok sort_values_insort_ok blank_flag_cols k]
    to_datetime_iso_ok sort_values_insort_ok messy_cols messy_run messy_fit h
    blank_flag_cols blank_flag_run blank_flag_fit k
  show ?thesis by (auto simp: messy_out_def scenario_out_def)
qed

end
